theory Spec2Isabelle
  imports Main "HOL-Library.AList"
begin

section \<open>The tab manager store of tabli (tabManagerState.js)\<close>

text \<open>
  The store is an Immutable.Record with two Immutable.Map indices and three scalar
  fields. Every method returns a new store value, so each method becomes a function
  from the store (the receiver \<^verbatim>\<open>this\<close>) and its arguments to the new store.

  The module \<^verbatim>\<open>./tabWindow\<close> (imported as \<^verbatim>\<open>TabWindow\<close>) is not part of the
  source at hand. Its functions are taken as a parameter \<open>T\<close> of every method that
  calls them; what the store relies on is stated as explicit hypotheses.
\<close>

subsection \<open>Data\<close>

text \<open>
  A tab window, as far as the store reads it: the two flags, the two keys,
  \<^verbatim>\<open>windowType\<close> and \<^verbatim>\<open>openTabCount\<close>. Everything else is the opaque payload \<open>'p\<close>.
  Identifiers are integers, as the defaults \<^verbatim>\<open>-1\<close> of the store's record are.
\<close>

record 'p tabWindow =
  "open" :: bool
  openWindowId :: int
  saved :: bool
  savedFolderId :: int
  windowType :: string
  openTabCount :: nat
  tabItems :: 'p

text \<open>A Chrome window snapshot: the store reads \<^verbatim>\<open>id\<close> and \<^verbatim>\<open>focused\<close>.\<close>

record 'c chromeWindow =
  id :: int
  focused :: bool
  tabs :: 'c

text \<open>A bookmark folder; the store hands it to \<^verbatim>\<open>TabWindow.makeFolderTabWindow\<close> unread.\<close>

record 'f bookmarkFolder =
  id :: int
  children :: 'f

text \<open>
  An Immutable.Map is modelled as an association list: \<^verbatim>\<open>set\<close> is \<open>AList.update\<close>
  (replace in place, or append), \<^verbatim>\<open>delete\<close> is \<open>AList.delete\<close>, \<^verbatim>\<open>get\<close> is
  \<open>map_of\<close> (\<open>None\<close> for \<^verbatim>\<open>undefined\<close>), and \<^verbatim>\<open>toIndexedSeq().toArray()\<close> lists the
  values. The iteration order of an Immutable.Map is not specified by the library; the
  list order stands for whatever order it has.
\<close>

type_synonym 'p windowMap = "(int \<times> 'p tabWindow) list"

record 'p tabManagerState =
  windowIdMap :: "'p windowMap"
  bookmarkIdMap :: "'p windowMap"
  folderId :: int
  archiveFolderId :: int
  currentWindowId :: int

text \<open>The defaults of the Immutable.Record: the store of \<^verbatim>\<open>new TabManagerState()\<close>.\<close>

definition initialState :: "'p tabManagerState" where
  "initialState =
     \<lparr> windowIdMap = [], bookmarkIdMap = [],
       folderId = - 1, archiveFolderId = - 1, currentWindowId = - 1 \<rparr>"

text \<open>
  The functions of \<^verbatim>\<open>./tabWindow\<close> that the store calls. \<open>'e\<close> is the type of the
  tab-level arguments (tab item, bookmark node, Chrome tab) that the store passes through.
\<close>

record ('p, 'c, 'f, 'e) tabWindowLib =
  makeChromeTabWindow :: "'c chromeWindow \<Rightarrow> 'p tabWindow"
  makeFolderTabWindow :: "'f bookmarkFolder \<Rightarrow> 'p tabWindow"
  updateWindow :: "'p tabWindow \<Rightarrow> 'c chromeWindow \<Rightarrow> 'p tabWindow"
  removeOpenWindowState :: "'p tabWindow \<Rightarrow> 'p tabWindow"
  removeSavedWindowState :: "'p tabWindow \<Rightarrow> 'p tabWindow"
  closeTab :: "'p tabWindow \<Rightarrow> int \<Rightarrow> 'p tabWindow"
  saveTab :: "'p tabWindow \<Rightarrow> 'e \<Rightarrow> 'e \<Rightarrow> 'p tabWindow"
  unsaveTab :: "'p tabWindow \<Rightarrow> 'e \<Rightarrow> 'p tabWindow"
  setActiveTab :: "'p tabWindow \<Rightarrow> int \<Rightarrow> 'p tabWindow"
  updateTabItem :: "'p tabWindow \<Rightarrow> 'e \<Rightarrow> 'p tabWindow"

subsection \<open>The methods of the store\<close>

definition registerTabWindow :: "'p tabManagerState \<Rightarrow> 'p tabWindow \<Rightarrow> 'p tabManagerState" where
  "registerTabWindow this tabWindow =
     (let nextWindowIdMap =
            (if open tabWindow
             then AList.update (openWindowId tabWindow) tabWindow (windowIdMap this)
             else windowIdMap this);
          nextBookmarkIdMap =
            (if saved tabWindow
             then AList.update (savedFolderId tabWindow) tabWindow (bookmarkIdMap this)
             else bookmarkIdMap this)
      in this\<lparr>windowIdMap := nextWindowIdMap, bookmarkIdMap := nextBookmarkIdMap\<rparr>)"

definition registerTabWindows ::
  "'p tabManagerState \<Rightarrow> 'p tabWindow list \<Rightarrow> 'p tabManagerState" where
  "registerTabWindows this tabWindows = foldl (\<lambda>acc w. registerTabWindow acc w) this tabWindows"

definition handleTabWindowClosed ::
  "('p, 'c, 'f, 'e) tabWindowLib \<Rightarrow> 'p tabManagerState \<Rightarrow> 'p tabWindow \<Rightarrow> 'p tabManagerState" where
  "handleTabWindowClosed T this tabWindow =
     (let closedWindowIdMap = AList.delete (openWindowId tabWindow) (windowIdMap this);
          revertedWindow = removeOpenWindowState T tabWindow
      in registerTabWindow (this\<lparr>windowIdMap := closedWindowIdMap\<rparr>) revertedWindow)"

definition handleTabClosed ::
  "('p, 'c, 'f, 'e) tabWindowLib \<Rightarrow> 'p tabManagerState \<Rightarrow> 'p tabWindow \<Rightarrow> int \<Rightarrow> 'p tabManagerState" where
  "handleTabClosed T this tabWindow tabId =
     (let updWindow = closeTab T tabWindow tabId in registerTabWindow this updWindow)"

definition handleTabSaved ::
  "('p, 'c, 'f, 'e) tabWindowLib \<Rightarrow> 'p tabManagerState \<Rightarrow> 'p tabWindow \<Rightarrow> 'e \<Rightarrow> 'e \<Rightarrow> 'p tabManagerState" where
  "handleTabSaved T this tabWindow tabItem tabNode =
     (let updWindow = saveTab T tabWindow tabItem tabNode in registerTabWindow this updWindow)"

definition handleTabUnsaved ::
  "('p, 'c, 'f, 'e) tabWindowLib \<Rightarrow> 'p tabManagerState \<Rightarrow> 'p tabWindow \<Rightarrow> 'e \<Rightarrow> 'p tabManagerState" where
  "handleTabUnsaved T this tabWindow tabItem =
     (let updWindow = unsaveTab T tabWindow tabItem in registerTabWindow this updWindow)"

definition handleTabActivated ::
  "('p, 'c, 'f, 'e) tabWindowLib \<Rightarrow> 'p tabManagerState \<Rightarrow> 'p tabWindow \<Rightarrow> int \<Rightarrow> 'p tabManagerState" where
  "handleTabActivated T this tabWindow tabId =
     (let updWindow = setActiveTab T tabWindow tabId in registerTabWindow this updWindow)"

definition handleTabUpdated ::
  "('p, 'c, 'f, 'e) tabWindowLib \<Rightarrow> 'p tabManagerState \<Rightarrow> 'p tabWindow \<Rightarrow> 'e \<Rightarrow> 'p tabManagerState" where
  "handleTabUpdated T this tabWindow tab =
     (let updWindow = updateTabItem T tabWindow tab in registerTabWindow this updWindow)"

text \<open>
  \<^verbatim>\<open>oldTabWindow ? ... : this\<close>: a stored tab window is an object, hence truthy; only
  \<^verbatim>\<open>undefined\<close> (no entry under the key) takes the second branch.
\<close>

definition attachChromeWindow ::
  "('p, 'c, 'f, 'e) tabWindowLib \<Rightarrow> 'p tabManagerState \<Rightarrow> 'p tabWindow \<Rightarrow> 'c chromeWindow
     \<Rightarrow> 'p tabManagerState" where
  "attachChromeWindow T this tabWindow chromeWindow =
     (let oldTabWindow = map_of (windowIdMap this) (chromeWindow.id chromeWindow);
          rmStore = (case oldTabWindow of
                       Some old \<Rightarrow> handleTabWindowClosed T this old
                     | None \<Rightarrow> this);
          attachedTabWindow = updateWindow T tabWindow chromeWindow
      in registerTabWindow rmStore attachedTabWindow)"

definition syncChromeWindow ::
  "('p, 'c, 'f, 'e) tabWindowLib \<Rightarrow> 'p tabManagerState \<Rightarrow> 'c chromeWindow \<Rightarrow> 'p tabManagerState" where
  "syncChromeWindow T this chromeWindow =
     (let prevTabWindow = map_of (windowIdMap this) (chromeWindow.id chromeWindow);
          tabWindow = (case prevTabWindow of
                         Some prev \<Rightarrow> updateWindow T prev chromeWindow
                       | None \<Rightarrow> makeChromeTabWindow T chromeWindow);
          stReg = registerTabWindow this tabWindow;
          st = (if focused chromeWindow
                then stReg\<lparr>currentWindowId := chromeWindow.id chromeWindow\<rparr>
                else stReg)
      in st)"

definition getOpen :: "'p tabManagerState \<Rightarrow> 'p tabWindow list" where
  "getOpen this = (let openWindows = map snd (windowIdMap this) in openWindows)"

definition syncWindowList ::
  "('p, 'c, 'f, 'e) tabWindowLib \<Rightarrow> 'p tabManagerState \<Rightarrow> 'c chromeWindow list \<Rightarrow> 'p tabManagerState" where
  "syncWindowList T this chromeWindowList =
     (let tabWindows = getOpen this;
          chromeIds = map chromeWindow.id chromeWindowList;
          chromeIdSet = set chromeIds;
          closedWindows = filter (\<lambda>tw. \<not> (openWindowId tw \<in> chromeIdSet)) tabWindows;
          closedWinStore = foldl (\<lambda>acc tw. handleTabWindowClosed T acc tw) this closedWindows;
          nextSt = foldl (\<lambda>acc cw. syncChromeWindow T acc cw) closedWinStore chromeWindowList
      in nextSt)"

definition setCurrentWindow :: "'p tabManagerState \<Rightarrow> int \<Rightarrow> 'p tabManagerState" where
  "setCurrentWindow this windowId = this\<lparr>currentWindowId := windowId\<rparr>"

definition removeBookmarkIdMapEntry :: "'p tabManagerState \<Rightarrow> 'p tabWindow \<Rightarrow> 'p tabManagerState" where
  "removeBookmarkIdMapEntry this tabWindow =
     this\<lparr>bookmarkIdMap := AList.delete (savedFolderId tabWindow) (bookmarkIdMap this)\<rparr>"

definition unmanageWindow ::
  "('p, 'c, 'f, 'e) tabWindowLib \<Rightarrow> 'p tabManagerState \<Rightarrow> 'p tabWindow \<Rightarrow> 'p tabManagerState" where
  "unmanageWindow T this tabWindow =
     (let rmStore = removeBookmarkIdMapEntry this tabWindow;
          umWindow = removeSavedWindowState T tabWindow
      in registerTabWindow rmStore umWindow)"

definition attachBookmarkFolder ::
  "('p, 'c, 'f, 'e) tabWindowLib \<Rightarrow> 'p tabManagerState \<Rightarrow> 'f bookmarkFolder \<Rightarrow> 'c chromeWindow
     \<Rightarrow> 'p tabManagerState" where
  "attachBookmarkFolder T this bookmarkFolder chromeWindow =
     (let folderTabWindow = makeFolderTabWindow T bookmarkFolder;
          mergedTabWindow = updateWindow T folderTabWindow chromeWindow
      in registerTabWindow this mergedTabWindow)"

definition getAll :: "'p tabManagerState \<Rightarrow> 'p tabWindow list" where
  "getAll this =
     (let openWindows = getOpen this;
          closedSavedWindows = filter (\<lambda>w. \<not> open w) (map snd (bookmarkIdMap this))
      in openWindows @ closedSavedWindows)"

definition getTabWindowsByType :: "'p tabManagerState \<Rightarrow> string \<Rightarrow> 'p tabWindow list" where
  "getTabWindowsByType this wt =
     (let openWindows = getOpen this in filter (\<lambda>w. windowType w = wt) openWindows)"

definition getTabWindowByChromeId :: "'p tabManagerState \<Rightarrow> int \<Rightarrow> 'p tabWindow option" where
  "getTabWindowByChromeId this windowId = map_of (windowIdMap this) windowId"

definition countOpenWindows :: "'p tabManagerState \<Rightarrow> nat" where
  "countOpenWindows this = length (windowIdMap this)"

definition countSavedWindows :: "'p tabManagerState \<Rightarrow> nat" where
  "countSavedWindows this = length (bookmarkIdMap this)"

definition countOpenTabs :: "'p tabManagerState \<Rightarrow> nat" where
  "countOpenTabs this = foldl (\<lambda>count w. count + openTabCount w) 0 (map snd (windowIdMap this))"


subsection \<open>Every store-returning method as one operation\<close>

text \<open>
  The events the host can deliver, one constructor per store-returning method, so that
  "any sequence of operations" is a list of \<open>storeOp\<close> and "reachable" is an inductive
  predicate over it.
\<close>

datatype ('p, 'c, 'f, 'e) storeOp =
    RegisterTabWindow "'p tabWindow"
  | RegisterTabWindows "'p tabWindow list"
  | HandleTabWindowClosed "'p tabWindow"
  | HandleTabClosed "'p tabWindow" int
  | HandleTabSaved "'p tabWindow" 'e 'e
  | HandleTabUnsaved "'p tabWindow" 'e
  | HandleTabActivated "'p tabWindow" int
  | HandleTabUpdated "'p tabWindow" 'e
  | AttachChromeWindow "'p tabWindow" "'c chromeWindow"
  | SyncChromeWindow "'c chromeWindow"
  | SyncWindowList "'c chromeWindow list"
  | SetCurrentWindow int
  | RemoveBookmarkIdMapEntry "'p tabWindow"
  | UnmanageWindow "'p tabWindow"
  | AttachBookmarkFolder "'f bookmarkFolder" "'c chromeWindow"

fun applyOp ::
  "('p, 'c, 'f, 'e) tabWindowLib \<Rightarrow> 'p tabManagerState \<Rightarrow> ('p, 'c, 'f, 'e) storeOp
     \<Rightarrow> 'p tabManagerState" where
  "applyOp T s (RegisterTabWindow w) = registerTabWindow s w"
| "applyOp T s (RegisterTabWindows ws) = registerTabWindows s ws"
| "applyOp T s (HandleTabWindowClosed w) = handleTabWindowClosed T s w"
| "applyOp T s (HandleTabClosed w i) = handleTabClosed T s w i"
| "applyOp T s (HandleTabSaved w item node) = handleTabSaved T s w item node"
| "applyOp T s (HandleTabUnsaved w item) = handleTabUnsaved T s w item"
| "applyOp T s (HandleTabActivated w i) = handleTabActivated T s w i"
| "applyOp T s (HandleTabUpdated w tab) = handleTabUpdated T s w tab"
| "applyOp T s (AttachChromeWindow w cw) = attachChromeWindow T s w cw"
| "applyOp T s (SyncChromeWindow cw) = syncChromeWindow T s cw"
| "applyOp T s (SyncWindowList cws) = syncWindowList T s cws"
| "applyOp T s (SetCurrentWindow i) = setCurrentWindow s i"
| "applyOp T s (RemoveBookmarkIdMapEntry w) = removeBookmarkIdMapEntry s w"
| "applyOp T s (UnmanageWindow w) = unmanageWindow T s w"
| "applyOp T s (AttachBookmarkFolder f cw) = attachBookmarkFolder T s f cw"

text \<open>
  A store is reachable when it is obtained from a store with two empty indices (the
  store constructed at start-up, whatever its folder configuration) by operations.
\<close>

inductive reachable ::
  "('p, 'c, 'f, 'e) tabWindowLib \<Rightarrow> 'p tabManagerState \<Rightarrow> bool"
  for T :: "('p, 'c, 'f, 'e) tabWindowLib" where
    reach_init: "windowIdMap s = [] \<Longrightarrow> bookmarkIdMap s = [] \<Longrightarrow> reachable T s"
  | reach_step: "reachable T s \<Longrightarrow> reachable T (applyOp T s x)"

subsection \<open>What the store expects of \<^verbatim>\<open>TabWindow\<close>\<close>

text \<open>
  The contract of the entity library, one predicate per promise:
  \<^verbatim>\<open>removeOpenWindowState\<close> clears the open flag and keeps the saved fields,
  \<^verbatim>\<open>makeChromeTabWindow\<close> and \<^verbatim>\<open>updateWindow\<close> yield an open entity keyed by the
  snapshot's id, \<^verbatim>\<open>updateWindow\<close> keeps the saved fields, \<^verbatim>\<open>makeChromeTabWindow\<close>
  yields an entity that is not saved, and \<^verbatim>\<open>makeFolderTabWindow\<close> yields a saved entity
  keyed by the folder's id.
\<close>

definition revertClearsOpen :: "('p, 'c, 'f, 'e) tabWindowLib \<Rightarrow> bool" where
  "revertClearsOpen T \<longleftrightarrow> (\<forall>w. \<not> open (removeOpenWindowState T w))"

definition revertKeepsSaved :: "('p, 'c, 'f, 'e) tabWindowLib \<Rightarrow> bool" where
  "revertKeepsSaved T \<longleftrightarrow>
     (\<forall>w. saved (removeOpenWindowState T w) = saved w \<and>
          savedFolderId (removeOpenWindowState T w) = savedFolderId w)"


definition mergeOpens :: "('p, 'c, 'f, 'e) tabWindowLib \<Rightarrow> bool" where
  "mergeOpens T \<longleftrightarrow>
     (\<forall>w cw. open (updateWindow T w cw) \<and>
             openWindowId (updateWindow T w cw) = chromeWindow.id cw)"

definition mergeKeepsSaved :: "('p, 'c, 'f, 'e) tabWindowLib \<Rightarrow> bool" where
  "mergeKeepsSaved T \<longleftrightarrow>
     (\<forall>w cw. saved (updateWindow T w cw) = saved w \<and>
             savedFolderId (updateWindow T w cw) = savedFolderId w)"


definition folderSaves :: "('p, 'c, 'f, 'e) tabWindowLib \<Rightarrow> bool" where
  "folderSaves T \<longleftrightarrow>
     (\<forall>f. saved (makeFolderTabWindow T f) \<and>
          savedFolderId (makeFolderTabWindow T f) = bookmarkFolder.id f)"

text \<open>
  Modelled from the spec: the module \<^verbatim>\<open>./tabWindow\<close> is missing from the source.
  This is the smallest entity library that does what section 6 of the specification
  says of each function: an open-only entity from a snapshot, a saved-only entity from
  a folder, a merge that sets the open fields and keeps the saved ones, two reverts that
  clear one pair of fields and keep the other. The payload is a list of tab URLs. It
  serves to run the store on concrete inputs.
\<close>

definition specTabWindow :: "(string list, string list, string list, string) tabWindowLib" where
  "specTabWindow =
     \<lparr> makeChromeTabWindow = (\<lambda>cw.
         \<lparr> open = True, openWindowId = chromeWindow.id cw, saved = False, savedFolderId = - 1,
           windowType = ''normal'', openTabCount = length (tabs cw), tabItems = tabs cw \<rparr>),
       makeFolderTabWindow = (\<lambda>f.
         \<lparr> open = False, openWindowId = - 1, saved = True, savedFolderId = bookmarkFolder.id f,
           windowType = [], openTabCount = 0, tabItems = children f \<rparr>),
       updateWindow = (\<lambda>w cw.
         w\<lparr> open := True, openWindowId := chromeWindow.id cw, windowType := ''normal'',
            openTabCount := length (tabs cw), tabItems := tabs cw \<rparr>),
       removeOpenWindowState = (\<lambda>w.
         w\<lparr> open := False, openWindowId := - 1, windowType := [], openTabCount := 0 \<rparr>),
       removeSavedWindowState = (\<lambda>w. w\<lparr> saved := False, savedFolderId := - 1 \<rparr>),
       closeTab = (\<lambda>w tabId. w\<lparr> openTabCount := openTabCount w - 1 \<rparr>),
       saveTab = (\<lambda>w tabItem tabNode. w),
       unsaveTab = (\<lambda>w tabItem. w),
       setActiveTab = (\<lambda>w tabId. w),
       updateTabItem = (\<lambda>w tab. w) \<rparr>"

subsection \<open>The representation invariant of the two indices\<close>

text \<open>
  Every entry of the open index is an open entity stored under its own
  \<^verbatim>\<open>openWindowId\<close>, every entry of the saved index is a saved entity stored under its
  own \<^verbatim>\<open>savedFolderId\<close>, and no key occurs twice (the lists stand for maps).
\<close>

definition keyedOpen :: "'p tabManagerState \<Rightarrow> bool" where
  "keyedOpen s \<longleftrightarrow> (\<forall>(k, w) \<in> set (windowIdMap s). open w \<and> openWindowId w = k)"

definition keyedSaved :: "'p tabManagerState \<Rightarrow> bool" where
  "keyedSaved s \<longleftrightarrow> (\<forall>(k, w) \<in> set (bookmarkIdMap s). saved w \<and> savedFolderId w = k)"

definition distinctKeys :: "'p tabManagerState \<Rightarrow> bool" where
  "distinctKeys s \<longleftrightarrow>
     distinct (map fst (windowIdMap s)) \<and> distinct (map fst (bookmarkIdMap s))"

definition storeInv :: "'p tabManagerState \<Rightarrow> bool" where
  "storeInv s \<longleftrightarrow> keyedOpen s \<and> keyedSaved s \<and> distinctKeys s"



subsection \<open>Concrete inputs\<close>

text \<open>
  Entities, snapshots and a folder on which the store is run below: \<open>winA\<close> is open
  (window 7) and saved (folder 10), \<open>winB\<close> is a saved-only entity of the same folder
  10, \<open>winC\<close> is a saved-only entity of folder 30, \<open>winD\<close> is open (window 8)
  and saved under folder 10 as well, \<open>winX\<close> is open (window 1) and saved (folder 20),
  \<open>winY\<close> is open only (window 2).
\<close>

definition winA :: "string list tabWindow" where
  "winA = \<lparr> open = True, openWindowId = 7, saved = True, savedFolderId = 10,
            windowType = ''normal'', openTabCount = 1, tabItems = [''a''] \<rparr>"

definition winB :: "string list tabWindow" where
  "winB = \<lparr> open = False, openWindowId = - 1, saved = True, savedFolderId = 10,
            windowType = [], openTabCount = 0, tabItems = [''z''] \<rparr>"

definition winC :: "string list tabWindow" where
  "winC = \<lparr> open = False, openWindowId = - 1, saved = True, savedFolderId = 30,
            windowType = [], openTabCount = 0, tabItems = [''c''] \<rparr>"

definition winD :: "string list tabWindow" where
  "winD = \<lparr> open = True, openWindowId = 8, saved = True, savedFolderId = 10,
            windowType = ''normal'', openTabCount = 1, tabItems = [''d''] \<rparr>"

definition winX :: "string list tabWindow" where
  "winX = \<lparr> open = True, openWindowId = 1, saved = True, savedFolderId = 20,
            windowType = ''normal'', openTabCount = 2, tabItems = [''x1'', ''x2''] \<rparr>"

definition winY :: "string list tabWindow" where
  "winY = \<lparr> open = True, openWindowId = 2, saved = False, savedFolderId = - 1,
            windowType = ''normal'', openTabCount = 1, tabItems = [''y''] \<rparr>"

definition snapshot :: "int \<Rightarrow> bool \<Rightarrow> string list \<Rightarrow> string list chromeWindow" where
  "snapshot i f ts = \<lparr> chromeWindow.id = i, focused = f, tabs = ts \<rparr>"

definition folder :: "int \<Rightarrow> string list \<Rightarrow> string list bookmarkFolder" where
  "folder i cs = \<lparr> bookmarkFolder.id = i, children = cs \<rparr>"

text \<open>The store holding \<open>winX\<close> and \<open>winY\<close>: open index \<open>{1: winX, 2: winY}\<close>.\<close>

definition storeXY :: "string list tabManagerState" where
  "storeXY = registerTabWindows initialState [winX, winY]"

text \<open>
  The store in which \<open>winD\<close> and then \<open>winA\<close> were registered: both are in the
  open index, and \<open>winA\<close>, registered last, is the entry of the saved index under
  folder 10.
\<close>

definition storeDA :: "string list tabManagerState" where
  "storeDA = registerTabWindows initialState [winD, winA]"

text \<open>The store holding \<open>winA\<close> in both indices.\<close>

definition storeA :: "string list tabManagerState" where
  "storeA = registerTabWindow initialState winA"


section \<open>Properties\<close>

lemmas ex_defs = winA_def winB_def winC_def winD_def winX_def winY_def snapshot_def folder_def
  storeXY_def storeDA_def
  storeA_def

lemmas store_defs = registerTabWindow_def registerTabWindows_def handleTabWindowClosed_def
  attachChromeWindow_def syncChromeWindow_def syncWindowList_def getOpen_def getAll_def
  attachBookmarkFolder_def initialState_def specTabWindow_def Let_def

subsection \<open>Association lists\<close>

lemma set_update_cases:
  "(k', w) \<in> set (AList.update k v al) \<Longrightarrow> (k', w) = (k, v) \<or> (k', w) \<in> set al"
  by (induction al) (auto split: if_splits)

lemma set_delete_subset: "set (AList.delete k al) \<subseteq> set al"
  by (auto simp: AList.delete_eq)

subsection \<open>The specification's entity library keeps its contract\<close>

lemma specTabWindow_revertClearsOpen: "revertClearsOpen specTabWindow"
  by (simp add: revertClearsOpen_def specTabWindow_def)

lemma specTabWindow_revertKeepsSaved: "revertKeepsSaved specTabWindow"
  by (simp add: revertKeepsSaved_def specTabWindow_def)


lemma specTabWindow_mergeOpens: "mergeOpens specTabWindow"
  by (simp add: mergeOpens_def specTabWindow_def)

lemma specTabWindow_mergeKeepsSaved: "mergeKeepsSaved specTabWindow"
  by (simp add: mergeKeepsSaved_def specTabWindow_def)


lemma specTabWindow_folderSaves: "folderSaves specTabWindow"
  by (simp add: folderSaves_def specTabWindow_def)

subsection \<open>The invariant holds in every reachable store\<close>

lemma storeInv_register: "storeInv s \<Longrightarrow> storeInv (registerTabWindow s w)"
  unfolding storeInv_def keyedOpen_def keyedSaved_def distinctKeys_def registerTabWindow_def
  by (auto simp: Let_def distinct_update dest: set_update_cases)

lemma storeInv_delete_open:
  "storeInv s \<Longrightarrow> storeInv (s\<lparr>windowIdMap := AList.delete k (windowIdMap s)\<rparr>)"
  unfolding storeInv_def keyedOpen_def keyedSaved_def distinctKeys_def
  using set_delete_subset [of k "windowIdMap s"]
  by (auto simp: distinct_delete)

lemma storeInv_delete_saved:
  "storeInv s \<Longrightarrow> storeInv (s\<lparr>bookmarkIdMap := AList.delete k (bookmarkIdMap s)\<rparr>)"
  unfolding storeInv_def keyedOpen_def keyedSaved_def distinctKeys_def
  using set_delete_subset [of k "bookmarkIdMap s"]
  by (auto simp: distinct_delete)

lemma storeInv_current: "storeInv s \<Longrightarrow> storeInv (s\<lparr>currentWindowId := i\<rparr>)"
  by (simp add: storeInv_def keyedOpen_def keyedSaved_def distinctKeys_def)

lemma storeInv_closed: "storeInv s \<Longrightarrow> storeInv (handleTabWindowClosed T s w)"
  by (simp add: handleTabWindowClosed_def Let_def storeInv_register storeInv_delete_open)

lemma storeInv_sync: "storeInv s \<Longrightarrow> storeInv (syncChromeWindow T s cw)"
  by (simp add: syncChromeWindow_def Let_def storeInv_register storeInv_current)

lemma storeInv_foldl:
  assumes "\<And>s x. P s \<Longrightarrow> P (f s x)"
  shows "P s \<Longrightarrow> P (foldl f s xs)"
  by (induction xs arbitrary: s) (simp_all add: assms)

lemma storeInv_registerAll: "storeInv s \<Longrightarrow> storeInv (registerTabWindows s ws)"
  unfolding registerTabWindows_def by (rule storeInv_foldl) (rule storeInv_register)

lemma storeInv_syncList: "storeInv s \<Longrightarrow> storeInv (syncWindowList T s cws)"
  unfolding syncWindowList_def Let_def
  by (intro storeInv_foldl [where P = storeInv] storeInv_sync storeInv_closed)

lemma storeInv_attach: "storeInv s \<Longrightarrow> storeInv (attachChromeWindow T s w cw)"
  by (simp add: attachChromeWindow_def Let_def storeInv_register storeInv_closed
      split: option.splits)

lemma storeInv_applyOp: "storeInv s \<Longrightarrow> storeInv (applyOp T s x)"
  by (cases x)
    (simp_all add: storeInv_register storeInv_registerAll storeInv_closed storeInv_sync
      storeInv_syncList storeInv_attach storeInv_current storeInv_delete_saved
      handleTabClosed_def handleTabSaved_def handleTabUnsaved_def handleTabActivated_def
      handleTabUpdated_def setCurrentWindow_def removeBookmarkIdMapEntry_def
      unmanageWindow_def attachBookmarkFolder_def Let_def)

lemma reachable_storeInv: "reachable T s \<Longrightarrow> storeInv s"
proof (induction rule: reachable.induct)
  case (reach_init s)
  then show ?case
    by (simp add: storeInv_def keyedOpen_def keyedSaved_def distinctKeys_def)
next
  case (reach_step s x)
  then show ?case by (simp add: storeInv_applyOp)
qed


lemma reachable_initial: "reachable T initialState"
  by (rule reach_init) (simp_all add: initialState_def)

lemma reachable_storeXY: "reachable specTabWindow storeXY"
  using reach_step [OF reachable_initial, of specTabWindow "RegisterTabWindows [winX, winY]"]
  by (simp add: storeXY_def)

lemma reachable_storeA: "reachable specTabWindow storeA"
  using reach_step [OF reachable_initial, of specTabWindow "RegisterTabWindow winA"]
  by (simp add: storeA_def)

subsection \<open>Lookups after registering and closing\<close>

lemma open_register:
  "map_of (windowIdMap (registerTabWindow s w)) k =
     (if open w \<and> openWindowId w = k then Some w else map_of (windowIdMap s) k)"
  by (simp add: registerTabWindow_def Let_def update_conv')

lemma saved_register:
  "map_of (bookmarkIdMap (registerTabWindow s w)) k =
     (if saved w \<and> savedFolderId w = k then Some w else map_of (bookmarkIdMap s) k)"
  by (simp add: registerTabWindow_def Let_def update_conv')

lemma register_detached:
  "\<not> open w \<Longrightarrow> \<not> saved w \<Longrightarrow> registerTabWindow s w = s"
  by (simp add: registerTabWindow_def Let_def)

lemma windowIdMap_closed:
  "revertClearsOpen T \<Longrightarrow>
     windowIdMap (handleTabWindowClosed T s w) = AList.delete (openWindowId w) (windowIdMap s)"
  by (simp add: handleTabWindowClosed_def registerTabWindow_def Let_def revertClearsOpen_def)

lemma saved_closed:
  "revertKeepsSaved T \<Longrightarrow>
     map_of (bookmarkIdMap (handleTabWindowClosed T s w)) k =
       (if saved w \<and> savedFolderId w = k then Some (removeOpenWindowState T w)
        else map_of (bookmarkIdMap s) k)"
  by (simp add: handleTabWindowClosed_def saved_register Let_def revertKeepsSaved_def)

subsection \<open>Fields that an operation leaves alone\<close>

lemma frame_register:
  "folderId (registerTabWindow s w) = folderId s \<and>
   archiveFolderId (registerTabWindow s w) = archiveFolderId s \<and>
   currentWindowId (registerTabWindow s w) = currentWindowId s"
  by (simp add: registerTabWindow_def Let_def)

lemma frame_closed:
  "folderId (handleTabWindowClosed T s w) = folderId s \<and>
   archiveFolderId (handleTabWindowClosed T s w) = archiveFolderId s \<and>
   currentWindowId (handleTabWindowClosed T s w) = currentWindowId s"
  by (simp add: handleTabWindowClosed_def Let_def frame_register)

lemma frame_sync:
  "folderId (syncChromeWindow T s cw) = folderId s \<and>
   archiveFolderId (syncChromeWindow T s cw) = archiveFolderId s"
  by (simp add: syncChromeWindow_def Let_def frame_register)

lemma foldl_field:
  assumes "\<And>s x. g (f s x) = g s"
  shows "g (foldl f s xs) = g s"
  by (induction xs arbitrary: s) (simp_all add: assms)

lemma frame_syncList:
  "folderId (syncWindowList T s cws) = folderId s \<and>
   archiveFolderId (syncWindowList T s cws) = archiveFolderId s"
  by (simp add: syncWindowList_def Let_def foldl_field frame_sync frame_closed)

lemma frame_attach:
  "folderId (attachChromeWindow T s w cw) = folderId s \<and>
   archiveFolderId (attachChromeWindow T s w cw) = archiveFolderId s"
  by (simp add: attachChromeWindow_def Let_def frame_register frame_closed split: option.splits)

lemma focus_sync_fold:
  "currentWindowId (foldl (\<lambda>acc cw. syncChromeWindow T acc cw) s cws) =
     (if filter focused cws = [] then currentWindowId s
      else chromeWindow.id (last (filter focused cws)))"
proof (induction cws arbitrary: s)
  case Nil
  then show ?case by simp
next
  case (Cons c cs)
  have "currentWindowId (syncChromeWindow T s c) =
          (if focused c then chromeWindow.id c else currentWindowId s)"
    by (simp add: syncChromeWindow_def Let_def frame_register)
  with Cons show ?case by simp
qed

lemma distinct_values:
  assumes "distinct (map fst al)" and "\<forall>(k, w) \<in> set al. key w = k"
  shows "distinct (map snd al)"
  using assms
proof (induction al)
  case Nil
  then show ?case by simp
next
  case (Cons a al)
  then show ?case by (cases a) force
qed

subsection \<open>Occupants of the open index\<close>

lemma occupant_keyed:
  assumes "storeInv s" and "map_of (windowIdMap s) k = Some a"
  shows "open a \<and> openWindowId a = k"
  using assms by (auto simp: storeInv_def keyedOpen_def dest!: map_of_SomeD)

lemma value_at_own_key:
  assumes "storeInv s" and "a \<in> snd ` set (windowIdMap s)"
  shows "map_of (windowIdMap s) (openWindowId a) = Some a"
proof -
  from assms(2) obtain k where k: "(k, a) \<in> set (windowIdMap s)" by auto
  with assms(1) have "openWindowId a = k" by (auto simp: storeInv_def keyedOpen_def)
  moreover from assms(1) have "distinct (map fst (windowIdMap s))"
    by (simp add: storeInv_def distinctKeys_def)
  ultimately show ?thesis using k by simp
qed

lemma saved_value_at_own_key:
  assumes "storeInv s" and "a \<in> snd ` set (bookmarkIdMap s)"
  shows "map_of (bookmarkIdMap s) (savedFolderId a) = Some a"
proof -
  from assms(2) obtain k where k: "(k, a) \<in> set (bookmarkIdMap s)" by auto
  with assms(1) have "savedFolderId a = k" by (auto simp: storeInv_def keyedSaved_def)
  moreover from assms(1) have "distinct (map fst (bookmarkIdMap s))"
    by (simp add: storeInv_def distinctKeys_def)
  ultimately show ?thesis using k by simp
qed

subsection \<open>The two phases of a list synchronisation\<close>




















subsection \<open>The concrete stores keep the invariants\<close>


lemma storeInv_storeA: "storeInv storeA"
  by (rule reachable_storeInv) (rule reachable_storeA)


section \<open>The claims\<close>

text \<open>
  C1. In every store reachable from a store with empty indices by any sequence of
  operations, every entity of the open index (\<open>windowIdMap\<close>) has \<open>open = true\<close> and
  every entity of the saved index (\<open>bookmarkIdMap\<close>) has \<open>saved = true\<close>. The store
  only ever inserts an entity under a flag that is set, so this holds whatever the
  entity library returns.
\<close>

theorem reachable_flags:
  "reachable T s \<Longrightarrow>
     (\<forall>w \<in> snd ` set (windowIdMap s). open w) \<and> (\<forall>w \<in> snd ` set (bookmarkIdMap s). saved w)"
  by (drule reachable_storeInv) (auto simp: storeInv_def keyedOpen_def keyedSaved_def)

text \<open>At the store reached by registering \<open>winA\<close> and then closing it.\<close>

theorem reachable_flags_witness:
  "reachable specTabWindow (applyOp specTabWindow storeA (HandleTabWindowClosed winA)) \<and>
   list_all open
     (map snd (windowIdMap (applyOp specTabWindow storeA (HandleTabWindowClosed winA)))) \<and>
   list_all saved
     (map snd (bookmarkIdMap (applyOp specTabWindow storeA (HandleTabWindowClosed winA)))) \<and>
   bookmarkIdMap (applyOp specTabWindow storeA (HandleTabWindowClosed winA)) \<noteq> []"
proof -
  let ?s = "applyOp specTabWindow storeA (HandleTabWindowClosed winA)"
  have r: "reachable specTabWindow ?s"
    by (rule reach_step) (rule reachable_storeA)
  have ne: "bookmarkIdMap ?s \<noteq> []"
    by (simp add: store_defs ex_defs)
  from reachable_flags [OF r] r ne show ?thesis
    by (simp add: list_all_iff)
qed




text \<open>
  C3. \<open>handleTabWindowClosed\<close> removes the entity's \<open>openWindowId\<close> from the open
  index. If the entity was saved, its reverted, saved-only form is in the saved index
  under its \<open>savedFolderId\<close>. If it was open only, the reverted form is dropped: the
  resulting store is the input store with the key deleted, and (in a store that keeps
  the representation invariant) neither the entity nor its reverted form is in either
  index. The entity library is assumed to clear the open flag and to keep the saved
  fields when it reverts.
\<close>

theorem closeWindow_effect:
  assumes "revertClearsOpen T" and "revertKeepsSaved T"
  shows "map_of (windowIdMap (handleTabWindowClosed T s w)) (openWindowId w) = None \<and>
         (saved w \<longrightarrow>
            map_of (bookmarkIdMap (handleTabWindowClosed T s w)) (savedFolderId w) =
              Some (removeOpenWindowState T w) \<and>
            \<not> open (removeOpenWindowState T w) \<and> saved (removeOpenWindowState T w)) \<and>
         (\<not> saved w \<longrightarrow>
            handleTabWindowClosed T s w =
              s\<lparr>windowIdMap := AList.delete (openWindowId w) (windowIdMap s)\<rparr> \<and>
            (storeInv s \<longrightarrow>
               w \<notin> snd ` set (windowIdMap (handleTabWindowClosed T s w)) \<and>
               w \<notin> snd ` set (bookmarkIdMap (handleTabWindowClosed T s w)) \<and>
               removeOpenWindowState T w \<notin> snd ` set (windowIdMap (handleTabWindowClosed T s w)) \<and>
               removeOpenWindowState T w \<notin> snd ` set (bookmarkIdMap (handleTabWindowClosed T s w))))"
proof (intro conjI impI)
  let ?s' = "handleTabWindowClosed T s w" and ?r = "removeOpenWindowState T w"
  show "map_of (windowIdMap ?s') (openWindowId w) = None"
    using assms(1) by (simp add: windowIdMap_closed delete_conv')
  have flags: "\<not> open ?r" "saved ?r = saved w"
    using assms by (simp_all add: revertClearsOpen_def revertKeepsSaved_def)
  {
    assume "saved w"
    then show "map_of (bookmarkIdMap ?s') (savedFolderId w) = Some ?r"
      using assms(2) by (simp add: saved_closed)
    show "\<not> open ?r" by (rule flags)
    from \<open>saved w\<close> show "saved ?r" by (simp add: flags)
  }
  {
    assume ns: "\<not> saved w"
    then show "?s' = s\<lparr>windowIdMap := AList.delete (openWindowId w) (windowIdMap s)\<rparr>"
      using flags by (simp add: handleTabWindowClosed_def Let_def register_detached)
    assume inv: "storeInv s"
    then have inv': "storeInv ?s'" by (rule storeInv_closed)
    show "w \<notin> snd ` set (windowIdMap ?s')"
    proof
      assume "w \<in> snd ` set (windowIdMap ?s')"
      then obtain k where k: "(k, w) \<in> set (windowIdMap ?s')" by auto
      with inv' have "openWindowId w = k" by (auto simp: storeInv_def keyedOpen_def)
      with k have "openWindowId w \<in> fst ` set (AList.delete (openWindowId w) (windowIdMap s))"
        using assms(1) by (force simp: windowIdMap_closed)
      then show False by (simp add: delete_notin_dom)
    qed
    show "w \<notin> snd ` set (bookmarkIdMap ?s')"
      using inv' ns by (auto simp: storeInv_def keyedSaved_def)
    show "?r \<notin> snd ` set (windowIdMap ?s')"
      using inv' flags by (auto simp: storeInv_def keyedOpen_def)
    show "?r \<notin> snd ` set (bookmarkIdMap ?s')"
      using inv' flags ns by (auto simp: storeInv_def keyedSaved_def)
  }
qed

text \<open>
  Closing the saved \<open>winX\<close> and closing the open-only \<open>winY\<close> in the store that holds
  both.
\<close>

theorem closeWindow_effect_witness:
  "revertClearsOpen specTabWindow \<and> revertKeepsSaved specTabWindow \<and>
   saved winX \<and> \<not> saved winY \<and> storeInv storeXY \<and>
   map_of (windowIdMap (handleTabWindowClosed specTabWindow storeXY winX)) 1 = None \<and>
   map_of (bookmarkIdMap (handleTabWindowClosed specTabWindow storeXY winX)) 20 =
     Some (winX\<lparr>open := False, openWindowId := - 1, windowType := [], openTabCount := 0\<rparr>) \<and>
   handleTabWindowClosed specTabWindow storeXY winY =
     storeXY\<lparr>windowIdMap := AList.delete 2 (windowIdMap storeXY)\<rparr> \<and>
   winY \<notin> snd ` set (windowIdMap (handleTabWindowClosed specTabWindow storeXY winY)) \<and>
   winY \<notin> snd ` set (bookmarkIdMap (handleTabWindowClosed specTabWindow storeXY winY))"
proof -
  note c = specTabWindow_revertClearsOpen specTabWindow_revertKeepsSaved
  have inv: "storeInv storeXY"
    by (rule reachable_storeInv) (rule reachable_storeXY)
  have fx: "saved winX" "openWindowId winX = 1" "savedFolderId winX = 20"
    and fy: "\<not> saved winY" "openWindowId winY = 2"
    by (simp_all add: winX_def winY_def)
  have r: "removeOpenWindowState specTabWindow winX =
             winX\<lparr>open := False, openWindowId := - 1, windowType := [], openTabCount := 0\<rparr>"
    by (simp add: specTabWindow_def)
  have x: "map_of (windowIdMap (handleTabWindowClosed specTabWindow storeXY winX)) 1 = None \<and>
           map_of (bookmarkIdMap (handleTabWindowClosed specTabWindow storeXY winX)) 20 =
             Some (winX\<lparr>open := False, openWindowId := - 1, windowType := [], openTabCount := 0\<rparr>)"
    using closeWindow_effect [OF c, of storeXY winX] fx r by simp
  have y: "handleTabWindowClosed specTabWindow storeXY winY =
             storeXY\<lparr>windowIdMap := AList.delete (openWindowId winY) (windowIdMap storeXY)\<rparr> \<and>
           winY \<notin> snd ` set (windowIdMap (handleTabWindowClosed specTabWindow storeXY winY)) \<and>
           winY \<notin> snd ` set (bookmarkIdMap (handleTabWindowClosed specTabWindow storeXY winY))"
    using closeWindow_effect [OF c, of storeXY winY] inv fy(1) by blast
  from x y c inv fx(1) fy(1) show ?thesis
    unfolding fy(2) by (intro conjI) (erule conjunct1 conjunct2 | assumption | blast)+
qed

text \<open>
  C4. When an entity \<open>a\<close> occupies the open index under the id of the snapshot,
  \<open>attachChromeWindow\<close> with an entity \<open>b\<close> leaves the merged form of \<open>b\<close> under
  that id and every other key of the open index as it was, so that \<open>a\<close> is no longer
  in the open index (unless the merged form of \<open>b\<close> is \<open>a\<close> itself). If \<open>a\<close> was
  saved, the saved index holds under \<open>a\<close>'s \<open>savedFolderId\<close> the reverted form of
  \<open>a\<close>, unless \<open>b\<close> is saved under that same \<open>savedFolderId\<close>: then it holds the
  merged form of \<open>b\<close>, which is registered last, and the reverted form of \<open>a\<close> is
  not in the saved index at all.
\<close>

theorem attachChromeWindow_evicts:
  assumes occ: "map_of (windowIdMap s) (chromeWindow.id cw) = Some a"
    and inv: "storeInv s"
    and c: "revertClearsOpen T" "revertKeepsSaved T" "mergeOpens T" "mergeKeepsSaved T"
  shows
    "(let s' = attachChromeWindow T s b cw; m = updateWindow T b cw
      in map_of (windowIdMap s') (chromeWindow.id cw) = Some m \<and>
         (\<forall>k. k \<noteq> chromeWindow.id cw \<longrightarrow>
              map_of (windowIdMap s') k = map_of (windowIdMap s) k) \<and>
         (m \<noteq> a \<longrightarrow> a \<notin> snd ` set (windowIdMap s')) \<and>
         (saved a \<longrightarrow>
            map_of (bookmarkIdMap s') (savedFolderId a) =
              Some (if saved b \<and> savedFolderId b = savedFolderId a then m
                    else removeOpenWindowState T a)) \<and>
         (saved a \<and> saved b \<and> savedFolderId b = savedFolderId a \<longrightarrow>
            removeOpenWindowState T a \<notin> snd ` set (bookmarkIdMap s')))"
proof -
  let ?m = "updateWindow T b cw" and ?s' = "attachChromeWindow T s b cw"
  from occupant_keyed [OF inv occ] have a: "open a" "openWindowId a = chromeWindow.id cw"
    by simp_all
  have m: "open ?m" "openWindowId ?m = chromeWindow.id cw"
    "saved ?m = saved b" "savedFolderId ?m = savedFolderId b"
    using c(3,4) by (simp_all add: mergeOpens_def mergeKeepsSaved_def)
  have att: "?s' = registerTabWindow (handleTabWindowClosed T s a) ?m"
    using occ by (simp add: attachChromeWindow_def Let_def)
  have at: "map_of (windowIdMap ?s') (chromeWindow.id cw) = Some ?m"
    unfolding att using m by (simp add: open_register)
  have frame: "map_of (windowIdMap ?s') k = map_of (windowIdMap s) k"
    if "k \<noteq> chromeWindow.id cw" for k
    unfolding att using that m a c(1)
    by (simp add: open_register windowIdMap_closed)
  have absent: "a \<notin> snd ` set (windowIdMap ?s')" if "?m \<noteq> a"
  proof
    assume "a \<in> snd ` set (windowIdMap ?s')"
    with storeInv_attach [OF inv, of T b cw]
    have "map_of (windowIdMap ?s') (openWindowId a) = Some a"
      by (rule value_at_own_key)
    with at a(2) that show False by simp
  qed
  have sv: "map_of (bookmarkIdMap ?s') (savedFolderId a) =
              Some (if saved b \<and> savedFolderId b = savedFolderId a then ?m
                    else removeOpenWindowState T a)" if "saved a"
    unfolding att using that m c(2) by (simp add: saved_register saved_closed)
  have gone: "removeOpenWindowState T a \<notin> snd ` set (bookmarkIdMap ?s')"
    if "saved a" "saved b" "savedFolderId b = savedFolderId a"
  proof
    let ?r = "removeOpenWindowState T a"
    have r: "\<not> open ?r" "savedFolderId ?r = savedFolderId a"
      using c(1,2) by (simp_all add: revertClearsOpen_def revertKeepsSaved_def)
    assume "?r \<in> snd ` set (bookmarkIdMap ?s')"
    with storeInv_attach [OF inv, of T b cw]
    have "map_of (bookmarkIdMap ?s') (savedFolderId ?r) = Some ?r"
      by (rule saved_value_at_own_key)
    with sv [OF that(1)] that(2,3) r(2) have "?r = ?m" by simp
    with r(1) m(1) show False by simp
  qed
  show ?thesis
    unfolding Let_def using at frame absent sv gone by blast
qed

text \<open>
  \<open>winA\<close> occupies window 7; \<open>winC\<close>, saved under another folder, is attached to a
  snapshot of window 7.
\<close>

theorem attachChromeWindow_evicts_witness:
  "map_of (windowIdMap storeA) (chromeWindow.id (snapshot 7 False [''b''])) = Some winA \<and>
   storeInv storeA \<and> saved winA \<and>
   map_of (windowIdMap (attachChromeWindow specTabWindow storeA winC (snapshot 7 False [''b''])))
     7 = Some (updateWindow specTabWindow winC (snapshot 7 False [''b''])) \<and>
   winA \<notin> snd ` set
     (windowIdMap (attachChromeWindow specTabWindow storeA winC (snapshot 7 False [''b'']))) \<and>
   map_of (bookmarkIdMap (attachChromeWindow specTabWindow storeA winC (snapshot 7 False [''b''])))
     10 = Some (removeOpenWindowState specTabWindow winA)"
proof -
  let ?cw = "snapshot 7 False [''b'']"
  have occ: "map_of (windowIdMap storeA) (chromeWindow.id ?cw) = Some winA"
    by (simp add: store_defs ex_defs)
  note t = attachChromeWindow_evicts [OF occ storeInv_storeA specTabWindow_revertClearsOpen
      specTabWindow_revertKeepsSaved specTabWindow_mergeOpens specTabWindow_mergeKeepsSaved,
      of winC, unfolded Let_def]
  have f: "chromeWindow.id ?cw = 7" "saved winA" "savedFolderId winA = 10"
    "savedFolderId winC \<noteq> savedFolderId winA"
    "updateWindow specTabWindow winC ?cw \<noteq> winA"
    by (simp_all add: ex_defs specTabWindow_def)
  have 1: "map_of (windowIdMap (attachChromeWindow specTabWindow storeA winC ?cw)) 7 =
             Some (updateWindow specTabWindow winC ?cw)"
    using t [THEN conjunct1] by (simp only: f(1))
  have 2: "winA \<notin> snd ` set (windowIdMap (attachChromeWindow specTabWindow storeA winC ?cw))"
    using t [THEN conjunct2, THEN conjunct2, THEN conjunct1] f(5) by blast
  have 3: "map_of (bookmarkIdMap (attachChromeWindow specTabWindow storeA winC ?cw)) 10 =
             Some (removeOpenWindowState specTabWindow winA)"
    using t [THEN conjunct2, THEN conjunct2, THEN conjunct2, THEN conjunct1] f(2,3,4) by simp
  from occ storeInv_storeA f(2) 1 2 3 show ?thesis by (intro conjI)
qed

text \<open>
  The claim without the exception fails: \<open>winB\<close> differs from \<open>winA\<close> and is saved
  under the same folder 10. After the attachment the saved index holds the merged form
  of \<open>winB\<close> under 10, and the reverted form of \<open>winA\<close> is not in it.
\<close>

theorem attachChromeWindow_counterexample:
  "map_of (windowIdMap storeA) 7 = Some winA \<and> winB \<noteq> winA \<and> saved winA \<and>
   chromeWindow.id (snapshot 7 False [''b'']) = 7 \<and>
   bookmarkIdMap (attachChromeWindow specTabWindow storeA winB (snapshot 7 False [''b''])) =
     [(10, winB\<lparr>open := True, openWindowId := 7, windowType := ''normal'',
                 openTabCount := 1, tabItems := [''b'']\<rparr>)] \<and>
   removeOpenWindowState specTabWindow winA \<notin>
     snd ` set (bookmarkIdMap
       (attachChromeWindow specTabWindow storeA winB (snapshot 7 False [''b''])))"
  by (simp add: store_defs ex_defs)

text \<open>
  C5. Closing an open and saved entity and then attaching a snapshot with the same
  open id to its reverted form gives a store whose two indices hold, under the original
  window id and the original folder id, one entity with both flags set and the original
  \<open>savedFolderId\<close>. In between, the entity is out of the open index and its reverted
  form is in the saved index. The entity library is assumed to keep the saved fields when
  it reverts and when it merges, and to set the open fields when it merges.
\<close>

theorem close_then_attach_roundtrip:
  assumes "open w" and "saved w"
    and "revertClearsOpen T" and "revertKeepsSaved T" and "mergeOpens T" and "mergeKeepsSaved T"
    and "chromeWindow.id cw = openWindowId w"
  shows
    "(let s1 = handleTabWindowClosed T s w;
          r = removeOpenWindowState T w;
          s2 = attachChromeWindow T s1 r cw;
          m = updateWindow T r cw
      in map_of (windowIdMap s1) (openWindowId w) = None \<and>
         map_of (bookmarkIdMap s1) (savedFolderId w) = Some r \<and>
         map_of (windowIdMap s2) (openWindowId w) = Some m \<and>
         map_of (bookmarkIdMap s2) (savedFolderId w) = Some m \<and>
         open m \<and> saved m \<and> savedFolderId m = savedFolderId w \<and> openWindowId m = openWindowId w)"
proof -
  let ?s1 = "handleTabWindowClosed T s w" and ?r = "removeOpenWindowState T w"
  let ?m = "updateWindow T ?r cw"
  have r: "saved ?r" "savedFolderId ?r = savedFolderId w"
    using assms(2,4) by (simp_all add: revertKeepsSaved_def)
  have m: "open ?m" "openWindowId ?m = openWindowId w" "saved ?m" "savedFolderId ?m = savedFolderId w"
    using assms(5,6,7) r by (simp_all add: mergeOpens_def mergeKeepsSaved_def)
  have gone: "map_of (windowIdMap ?s1) (openWindowId w) = None"
    using assms(3) by (simp add: windowIdMap_closed delete_conv')
  have kept: "map_of (bookmarkIdMap ?s1) (savedFolderId w) = Some ?r"
    using assms(2,4) by (simp add: saved_closed)
  have att: "attachChromeWindow T ?s1 ?r cw = registerTabWindow ?s1 ?m"
    using gone assms(7) by (simp add: attachChromeWindow_def Let_def)
  show ?thesis
    unfolding Let_def att using gone kept m by (simp add: open_register saved_register)
qed

text \<open>Closing \<open>winA\<close> (window 7, folder 10) and attaching a snapshot of window 7.\<close>

theorem close_then_attach_roundtrip_witness:
  "open winA \<and> saved winA \<and> chromeWindow.id (snapshot 7 False [''b'']) = openWindowId winA \<and>
   map_of (windowIdMap
     (attachChromeWindow specTabWindow (handleTabWindowClosed specTabWindow storeA winA)
        (removeOpenWindowState specTabWindow winA) (snapshot 7 False [''b'']))) 7 =
     Some (winA\<lparr>openTabCount := 1, tabItems := [''b'']\<rparr>) \<and>
   map_of (bookmarkIdMap
     (attachChromeWindow specTabWindow (handleTabWindowClosed specTabWindow storeA winA)
        (removeOpenWindowState specTabWindow winA) (snapshot 7 False [''b'']))) 10 =
     Some (winA\<lparr>openTabCount := 1, tabItems := [''b'']\<rparr>)"
proof -
  have h: "open winA" "saved winA" "chromeWindow.id (snapshot 7 False [''b'']) = openWindowId winA"
    by (simp_all add: winA_def snapshot_def)
  have f: "openWindowId winA = 7" "savedFolderId winA = 10"
    by (simp_all add: winA_def)
  have m: "updateWindow specTabWindow (removeOpenWindowState specTabWindow winA)
             (snapshot 7 False [''b'']) = winA\<lparr>openTabCount := 1, tabItems := [''b'']\<rparr>"
    by (simp add: specTabWindow_def winA_def snapshot_def)
  from close_then_attach_roundtrip
    [OF h(1,2) specTabWindow_revertClearsOpen specTabWindow_revertKeepsSaved
        specTabWindow_mergeOpens specTabWindow_mergeKeepsSaved h(3), of storeA]
    h f m
  show ?thesis by (simp add: Let_def)
qed

text \<open>
  C6. In every reachable store, \<open>getAll\<close> is \<open>getOpen\<close> followed by exactly the
  entities of the saved index whose \<open>open\<close> flag is false, and no entity occurs twice in
  it.
\<close>

theorem getAll_no_duplicates:
  assumes "reachable T s"
  shows "getAll s = getOpen s @ filter (\<lambda>w. \<not> open w) (map snd (bookmarkIdMap s)) \<and>
         distinct (getAll s)"
proof -
  from assms have inv: "storeInv s" by (rule reachable_storeInv)
  have d1: "distinct (map snd (windowIdMap s))"
    using inv by (intro distinct_values [where key = openWindowId])
      (auto simp: storeInv_def distinctKeys_def keyedOpen_def)
  have d2: "distinct (map snd (bookmarkIdMap s))"
    using inv by (intro distinct_values [where key = savedFolderId])
      (auto simp: storeInv_def distinctKeys_def keyedSaved_def)
  have op: "\<forall>w \<in> set (map snd (windowIdMap s)). open w"
    using inv by (auto simp: storeInv_def keyedOpen_def)
  show ?thesis
    using d1 d2 op by (auto simp: getAll_def getOpen_def Let_def)
qed

text \<open>
  With \<open>winX\<close> (open and saved), \<open>winY\<close> (open only) and \<open>winB\<close> (saved only)
  registered, \<open>winX\<close> is listed once.
\<close>

theorem getAll_no_duplicates_witness:
  "reachable specTabWindow (applyOp specTabWindow storeXY (RegisterTabWindow winB)) \<and>
   getAll (applyOp specTabWindow storeXY (RegisterTabWindow winB)) = [winX, winY, winB] \<and>
   distinct (getAll (applyOp specTabWindow storeXY (RegisterTabWindow winB)))"
proof -
  let ?s = "applyOp specTabWindow storeXY (RegisterTabWindow winB)"
  have r: "reachable specTabWindow ?s"
    by (rule reach_step) (rule reachable_storeXY)
  have g: "getAll ?s = [winX, winY, winB]"
    by (simp add: store_defs ex_defs)
  have d: "distinct (getAll ?s)"
    using getAll_no_duplicates [OF r] by (rule conjunct2)
  from r g d show ?thesis by (intro conjI)
qed

text \<open>
  C7. After \<open>syncWindowList\<close> the focused id (\<open>currentWindowId\<close>) is the id of the last
  snapshot of the list with \<open>focused = true\<close>, and it is the one of the input store when
  no snapshot of the list is focused.
\<close>

theorem focus_after_sync:
  "currentWindowId (syncWindowList T s cws) =
     (if filter focused cws = [] then currentWindowId s
      else chromeWindow.id (last (filter focused cws)))"
  by (simp add: syncWindowList_def Let_def focus_sync_fold foldl_field frame_closed)

text \<open>Exactly one snapshot of the list is focused, at id 5.\<close>

theorem focus_after_sync_witness:
  "currentWindowId
     (syncWindowList specTabWindow storeXY
        [snapshot 2 False [], snapshot 5 True [], snapshot 3 False []]) = 5"
  using focus_after_sync
    [of specTabWindow storeXY "[snapshot 2 False [], snapshot 5 True [], snapshot 3 False []]"]
  by (simp add: snapshot_def)

text \<open>
  C8. Registering the same entity twice in succession gives the same store as
  registering it once. This holds for every entity, the well-formed ones (open, saved
  or both) in particular.
\<close>

theorem register_idem:
  "registerTabWindow (registerTabWindow s w) w = registerTabWindow s w"
  by (simp add: registerTabWindow_def Let_def)

theorem register_idem_witness:
  "registerTabWindow (registerTabWindow storeXY winA) winA = registerTabWindow storeXY winA"
  by (rule register_idem)

text \<open>
  C9. No operation of the store changes \<open>folderId\<close> or \<open>archiveFolderId\<close>.
\<close>

theorem config_never_changes:
  "folderId (applyOp T s x) = folderId s \<and> archiveFolderId (applyOp T s x) = archiveFolderId s"
  by (cases x)
    (simp_all add: frame_register frame_closed frame_sync frame_syncList frame_attach
      registerTabWindows_def foldl_field
      handleTabClosed_def handleTabSaved_def handleTabUnsaved_def handleTabActivated_def
      handleTabUpdated_def setCurrentWindow_def removeBookmarkIdMapEntry_def
      unmanageWindow_def attachBookmarkFolder_def Let_def)

theorem config_never_changes_witness:
  "folderId (applyOp specTabWindow (storeXY\<lparr>folderId := 4, archiveFolderId := 5\<rparr>)
      (SyncWindowList [snapshot 2 True []])) = 4 \<and>
   archiveFolderId (applyOp specTabWindow (storeXY\<lparr>folderId := 4, archiveFolderId := 5\<rparr>)
      (SyncWindowList [snapshot 2 True []])) = 5"
  using config_never_changes
    [of specTabWindow "storeXY\<lparr>folderId := 4, archiveFolderId := 5\<rparr>"
        "SyncWindowList [snapshot 2 True []]"]
  by simp

text \<open>
  C10. \<open>attachBookmarkFolder\<close> evicts nobody: it only registers the merged entity.
  When a saved entity \<open>old\<close> occupies the open index under the snapshot's id and the
  saved index under its own \<open>savedFolderId\<close>, the merged entity replaces it in the open
  index, and \<open>old\<close> stays in the saved index under its \<open>savedFolderId\<close>, still with
  \<open>open = true\<close>, provided the folder's id is not that \<open>savedFolderId\<close>; if it is,
  the merged entity replaces \<open>old\<close> there too.
\<close>

theorem attachBookmarkFolder_no_eviction:
  assumes occ: "map_of (windowIdMap s) (chromeWindow.id cw) = Some old"
    and sv: "saved old"
    and ins: "map_of (bookmarkIdMap s) (savedFolderId old) = Some old"
    and inv: "storeInv s"
    and c: "folderSaves T" "mergeOpens T" "mergeKeepsSaved T"
  shows
    "(let m = updateWindow T (makeFolderTabWindow T f) cw; s' = attachBookmarkFolder T s f cw
      in s' = registerTabWindow s m \<and>
         map_of (windowIdMap s') (chromeWindow.id cw) = Some m \<and>
         map_of (bookmarkIdMap s') (savedFolderId old) =
           Some (if bookmarkFolder.id f = savedFolderId old then m else old) \<and>
         open old)"
proof -
  let ?m = "updateWindow T (makeFolderTabWindow T f) cw"
  have m: "open ?m" "openWindowId ?m = chromeWindow.id cw"
    "saved ?m" "savedFolderId ?m = bookmarkFolder.id f"
    using c by (simp_all add: mergeOpens_def mergeKeepsSaved_def folderSaves_def)
  have att: "attachBookmarkFolder T s f cw = registerTabWindow s ?m"
    by (simp add: attachBookmarkFolder_def Let_def)
  from occupant_keyed [OF inv occ] have "open old" by simp
  then show ?thesis
    unfolding Let_def att using m ins by (simp add: open_register saved_register)
qed

text \<open>\<open>winA\<close> occupies window 7 and folder 10; folder 30 is attached to window 7.\<close>

theorem attachBookmarkFolder_no_eviction_witness:
  "map_of (windowIdMap storeA) (chromeWindow.id (snapshot 7 False [''b''])) = Some winA \<and>
   saved winA \<and> map_of (bookmarkIdMap storeA) (savedFolderId winA) = Some winA \<and>
   storeInv storeA \<and>
   map_of (windowIdMap
      (attachBookmarkFolder specTabWindow storeA (folder 30 [''c'']) (snapshot 7 False [''b''])))
     7 = Some (updateWindow specTabWindow (makeFolderTabWindow specTabWindow (folder 30 [''c'']))
                (snapshot 7 False [''b''])) \<and>
   map_of (bookmarkIdMap
      (attachBookmarkFolder specTabWindow storeA (folder 30 [''c'']) (snapshot 7 False [''b''])))
     10 = Some winA \<and>
   open winA"
proof -
  let ?cw = "snapshot 7 False [''b'']" and ?f = "folder 30 [''c'']"
  have occ: "map_of (windowIdMap storeA) (chromeWindow.id ?cw) = Some winA"
    and ins: "map_of (bookmarkIdMap storeA) (savedFolderId winA) = Some winA"
    by (simp_all add: store_defs ex_defs)
  have f: "chromeWindow.id ?cw = 7" "saved winA" "savedFolderId winA = 10"
    "bookmarkFolder.id ?f \<noteq> savedFolderId winA"
    by (simp_all add: ex_defs)
  note t = attachBookmarkFolder_no_eviction [OF occ f(2) ins storeInv_storeA
      specTabWindow_folderSaves specTabWindow_mergeOpens specTabWindow_mergeKeepsSaved,
      of ?f, unfolded Let_def]
  have 1: "map_of (windowIdMap (attachBookmarkFolder specTabWindow storeA ?f ?cw)) 7 =
             Some (updateWindow specTabWindow (makeFolderTabWindow specTabWindow ?f) ?cw)"
    using t [THEN conjunct2, THEN conjunct1] by (simp only: f(1))
  have 2: "map_of (bookmarkIdMap (attachBookmarkFolder specTabWindow storeA ?f ?cw)) 10 = Some winA"
    using t [THEN conjunct2, THEN conjunct2, THEN conjunct1] f(3,4) by simp
  have 3: "open winA"
    using t [THEN conjunct2, THEN conjunct2, THEN conjunct2] .
  from occ f(2) ins storeInv_storeA 1 2 3 show ?thesis by (intro conjI)
qed

text \<open>
  The claim without the proviso fails: attaching folder 10 itself to window 7 replaces
  \<open>winA\<close> in the saved index as well.
\<close>

theorem attachBookmarkFolder_counterexample:
  "map_of (windowIdMap storeA) 7 = Some winA \<and> saved winA \<and>
   map_of (bookmarkIdMap storeA) (savedFolderId winA) = Some winA \<and>
   chromeWindow.id (snapshot 7 False [''b'']) = 7 \<and>
   bookmarkIdMap (attachBookmarkFolder specTabWindow storeA (folder 10 [''c''])
      (snapshot 7 False [''b''])) =
     [(10, \<lparr> open = True, openWindowId = 7, saved = True, savedFolderId = 10,
             windowType = ''normal'', openTabCount = 1, tabItems = [''b''] \<rparr>)] \<and>
   winA \<notin> snd ` set (bookmarkIdMap (attachBookmarkFolder specTabWindow storeA (folder 10 [''c''])
      (snapshot 7 False [''b''])))"
  by (simp add: store_defs ex_defs)

end
